theory Spec2Isabelle
  imports Complex_Main "HOL-Library.Sublist"
begin

section \<open>Robot Framework results to Slack: the model of \<open>src/index.ts\<close>\<close>

text \<open>
  The action reads a Robot Framework \<open>output.xml\<close>, pulls the totals of the
  ``All Tests'' statistics line out of it with three regular expressions, and posts them
  to a Slack webhook. The model follows the TypeScript function by function.

  A JavaScript string is a sequence of UTF-16 code units; the model's \<open>string\<close> covers
  the code units below 256 (ASCII and Latin-1), one \<open>char\<close> per code unit.
\<close>

subsection \<open>Character classes of the regular expressions\<close>

text \<open>
  \<open>\s\<close> of a JavaScript regular expression, which is also the white space that
  \<open>parseInt\<close> strips: tab, line feed, vertical tab, form feed, carriage return, space and
  the no-break space (the members below 256).
\<close>

definition isSpace :: "char \<Rightarrow> bool" where
  "isSpace c = (c = CHR 0x09 \<or> c = CHR 0x0A \<or> c = CHR 0x0B \<or> c = CHR 0x0C \<or> c = CHR 0x0D
                \<or> c = CHR '' '' \<or> c = CHR 0xA0)"

definition notSpace :: "char \<Rightarrow> bool" where
  "notSpace c = (\<not> isSpace c)"

definition notGt :: "char \<Rightarrow> bool" where
  "notGt c = (c \<noteq> CHR ''>'')"

definition notQuote :: "char \<Rightarrow> bool" where
  "notQuote c = (c \<noteq> CHR 0x22)"

subsection \<open>\<open>resultsXml.match(/<stat[^>]+>All Tests<\/stat>/)\<close>\<close>

text \<open>
  One attempt of the expression at the head of the text. \<open>[^>]+\<close> is greedy and cannot
  cross a \<open>>\<close>, and the next thing to match is a \<open>>\<close>: the only length at which the rest
  can match is the whole run of characters other than \<open>>\<close>, which must not be empty.
  The result is the matched text, \<open>line[0]\<close> of the source.
\<close>

definition statAt :: "string \<Rightarrow> string option" where
  "statAt s =
     (if prefix ''<stat'' s then
        (let rest = drop 5 s; r = takeWhile notGt rest; after = dropWhile notGt rest
         in if r \<noteq> [] \<and> prefix ''>All Tests</stat>'' after
            then Some (''<stat'' @ r @ ''>All Tests</stat>'') else None)
      else None)"

text \<open>\<open>match\<close> without the \<open>g\<close> flag: the leftmost position at which an attempt succeeds.\<close>

fun findStat :: "string \<Rightarrow> string option" where
  "findStat [] = None"
| "findStat (c # cs) = (case statAt (c # cs) of Some m \<Rightarrow> Some m | None \<Rightarrow> findStat cs)"

subsection \<open>\<open>getArg\<close>: \<open>(?<=arg=")[^\s]+(?=")\<close> on the matched line\<close>

text \<open>
  \<open>[^\s]+(?=")\<close> at the head of the text: the greedy \<open>+\<close> first takes the whole run of
  characters that are not white space and then gives characters back until the next
  character is a double quote. So the match is the run up to its last double quote that
  is not its first character; there is none when the run has no such quote.
\<close>

definition beforeLastQuote :: "string \<Rightarrow> string" where
  "beforeLastQuote cs = rev (tl (dropWhile notQuote (rev cs)))"

definition valueAt :: "string \<Rightarrow> string option" where
  "valueAt s =
     (case takeWhile notSpace s of
        [] \<Rightarrow> None
      | c # cs \<Rightarrow> if CHR 0x22 \<in> set cs then Some (c # beforeLastQuote cs) else None)"

text \<open>
  The lookbehind \<open>(?<=pat)\<close> holds at a position when the text before it ends with
  \<open>pat\<close>. The scan walks over the positions at which \<open>pat\<close> starts, which is the same
  walk shifted by the length of \<open>pat\<close>, and returns the first match.
\<close>

fun findAfter :: "string \<Rightarrow> string \<Rightarrow> string option" where
  "findAfter pat [] = None"
| "findAfter pat (c # cs) =
     (case (if prefix pat (c # cs) then valueAt (drop (length pat) (c # cs)) else None) of
        Some v \<Rightarrow> Some v
      | None \<Rightarrow> findAfter pat cs)"

text \<open>
  \<open>getArg\<close> throws \<open>Error(`Error getting ${arg} from XML`)\<close> when there is no match;
  the thrown message is the \<open>Inl\<close> of the result.
\<close>

definition getArg :: "string \<Rightarrow> string \<Rightarrow> string + string" where
  "getArg line arg =
     (case findAfter (arg @ [CHR ''='', CHR 0x22]) line of
        None \<Rightarrow> Inl (''Error getting '' @ arg @ '' from XML'')
      | Some m \<Rightarrow> Inr m)"

subsection \<open>\<open>resultsXml.match(/(?<=generated=")[^"]+(?=")/)\<close>\<close>

text \<open>
  \<open>[^"]+(?=")\<close> at the head of the text: the run of characters other than the double
  quote, not empty, with a double quote after it.
\<close>

definition generatedAt :: "string \<Rightarrow> string option" where
  "generatedAt s =
     (let r = takeWhile notQuote s; after = dropWhile notQuote s
      in if r \<noteq> [] \<and> after \<noteq> [] then Some r else None)"

fun findGenerated :: "string \<Rightarrow> string option" where
  "findGenerated [] = None"
| "findGenerated (c # cs) =
     (case (if prefix (''generated='' @ [CHR 0x22]) (c # cs) then generatedAt (drop 11 (c # cs)) else None) of
        Some v \<Rightarrow> Some v
      | None \<Rightarrow> findGenerated cs)"

subsection \<open>Numbers\<close>

text \<open>
  A JavaScript number is an IEEE 754 double. A finite double is modelled by the rational
  it denotes, and every arithmetic result is rounded to the nearest double, ties to even
  (\<open>fl\<close>). The two zeros are one value here: this program only prints a zero (as
  \<open>0\<close>), compares it, or divides by it when the dividend is a zero too, and none of
  these tells them apart.
\<close>

datatype jsnum = NaN | PInf | NInf | Fin rat

function ilog2 :: "int \<Rightarrow> int" where
  "ilog2 n = (if n < 2 then 0 else 1 + ilog2 (n div 2))"
  by pat_completeness auto
termination
  by (relation "measure nat") auto

definition pow2 :: "int \<Rightarrow> rat" where
  "pow2 i = (if 0 \<le> i then 2 ^ nat i else 1 / 2 ^ nat (- i))"

definition pow10 :: "int \<Rightarrow> rat" where
  "pow10 i = (if 0 \<le> i then 10 ^ nat i else 1 / 10 ^ nat (- i))"

text \<open>The integer \<open>e\<close> with \<open>2 ^ e \<le> a < 2 ^ (e + 1)\<close>, for a positive \<open>a\<close>.\<close>

definition flog2 :: "rat \<Rightarrow> int" where
  "flog2 a =
     (if 1 \<le> a then ilog2 \<lfloor>a\<rfloor>
      else (let k = ilog2 \<lfloor>1 / a\<rfloor>
            in if a = pow2 (- k) then - k else - k - 1))"

definition roundHalfEven :: "rat \<Rightarrow> int" where
  "roundHalfEven x =
     (let f = \<lfloor>x\<rfloor>; r = x - of_int f
      in if r < 1 / 2 then f else if 1 / 2 < r then f + 1 else if even f then f else f + 1)"

text \<open>
  Rounding a rational to a double: 53 significant bits \<open>m\<close> at the spacing \<open>u\<close> of the
  binade of the value, exponents from -1022 (below it the spacing stays that of the
  subnormals). The rounded value \<open>m * u\<close> reaches \<open>2 ^ 1024\<close>, and is an infinity, when
  the exponent is 1024 or more, or is 1023 and \<open>m\<close> was rounded up to \<open>2 ^ 53\<close>.
\<close>

definition fl :: "rat \<Rightarrow> jsnum" where
  "fl q =
     (if q = 0 then Fin 0
      else (let a = \<bar>q\<bar>;
                e = max (flog2 a) (- 1022)
            in if 1024 \<le> e then (if 0 < q then PInf else NInf)
               else (let u = pow2 (e - 52);
                         m = roundHalfEven (a / u)
                     in if e = 1023 \<and> m = 2 ^ 53 then (if 0 < q then PInf else NInf)
                        else Fin (if 0 < q then of_int m * u else - (of_int m * u)))))"

fun jsAdd :: "jsnum \<Rightarrow> jsnum \<Rightarrow> jsnum" where
  "jsAdd NaN y = NaN"
| "jsAdd x NaN = NaN"
| "jsAdd PInf NInf = NaN"
| "jsAdd NInf PInf = NaN"
| "jsAdd PInf y = PInf"
| "jsAdd NInf y = NInf"
| "jsAdd x PInf = PInf"
| "jsAdd x NInf = NInf"
| "jsAdd (Fin x) (Fin y) = fl (x + y)"

fun jsNeg :: "jsnum \<Rightarrow> jsnum" where
  "jsNeg NaN = NaN"
| "jsNeg PInf = NInf"
| "jsNeg NInf = PInf"
| "jsNeg (Fin x) = Fin (- x)"

fun jsMul :: "jsnum \<Rightarrow> jsnum \<Rightarrow> jsnum" where
  "jsMul NaN y = NaN"
| "jsMul x NaN = NaN"
| "jsMul (Fin x) (Fin y) = fl (x * y)"
| "jsMul (Fin x) y = (if x = 0 then NaN else if 0 < x then y else jsNeg y)"
| "jsMul x (Fin y) = (if y = 0 then NaN else if 0 < y then x else jsNeg x)"
| "jsMul x y = (if x = y then PInf else NInf)"

fun jsDiv :: "jsnum \<Rightarrow> jsnum \<Rightarrow> jsnum" where
  "jsDiv NaN y = NaN"
| "jsDiv x NaN = NaN"
| "jsDiv (Fin x) (Fin y) =
     (if y = 0 then (if x = 0 then NaN else if 0 < x then PInf else NInf) else fl (x / y))"
| "jsDiv (Fin x) y = Fin 0"
| "jsDiv x (Fin y) = (if y < 0 then jsNeg x else x)"
| "jsDiv x y = NaN"

text \<open>\<open>x === y\<close> and \<open>x > y\<close> on numbers: both are false when an operand is \<open>NaN\<close>.\<close>

fun jsEq :: "jsnum \<Rightarrow> jsnum \<Rightarrow> bool" where
  "jsEq NaN y = False"
| "jsEq x NaN = False"
| "jsEq x y = (x = y)"

fun jsGt :: "jsnum \<Rightarrow> jsnum \<Rightarrow> bool" where
  "jsGt NaN y = False"
| "jsGt x NaN = False"
| "jsGt (Fin x) (Fin y) = (y < x)"
| "jsGt PInf y = (y \<noteq> PInf)"
| "jsGt x NInf = (x \<noteq> NInf)"
| "jsGt x y = False"

subsection \<open>\<open>Number.prototype.toString\<close>\<close>

definition digitChar :: "int \<Rightarrow> char" where
  "digitChar d = ''0123456789'' ! nat (d mod 10)"

text \<open>The decimal digits of an integer that is not negative.\<close>

function digitsOf :: "int \<Rightarrow> string" where
  "digitsOf n = (if n < 10 then [digitChar n] else digitsOf (n div 10) @ [digitChar (n mod 10)])"
  by pat_completeness auto
termination
  by (relation "measure nat") auto

text \<open>The integer \<open>e\<close> with \<open>10 ^ e \<le> a < 10 ^ (e + 1)\<close>, for a positive \<open>a\<close>.\<close>

definition flog10 :: "rat \<Rightarrow> int" where
  "flog10 a =
     (if 1 \<le> a then int (length (digitsOf \<lfloor>a\<rfloor>)) - 1
      else (let l = int (length (digitsOf \<lfloor>1 / a\<rfloor>))
            in if a = pow10 (1 - l) then 1 - l else - l))"

text \<open>
  The digits of a positive double \<open>x\<close>: the shortest decimal \<open>s * 10 ^ e\<close> that rounds
  to \<open>x\<close>, the one nearest to \<open>x\<close> when two of that length do (the even one at a tie).
  \<open>k\<close> is the number of digits tried; seventeen always suffice.
\<close>

function shortest :: "rat \<Rightarrow> nat \<Rightarrow> int \<times> int" where
  "shortest x k =
     (let e = flog10 x + 1 - int k;
          lo = \<lfloor>x / pow10 e\<rfloor>;
          hi = lo + 1;
          dlo = x - of_int lo * pow10 e;
          dhi = of_int hi * pow10 e - x;
          oklo = (fl (of_int lo * pow10 e) = Fin x);
          okhi = (fl (of_int hi * pow10 e) = Fin x);
          best = (if dlo < dhi then lo else if dhi < dlo then hi else if even lo then lo else hi)
      in if 17 \<le> k then (best, e)
         else if oklo \<and> okhi then (best, e)
         else if oklo then (lo, e)
         else if okhi then (hi, e)
         else shortest x (Suc k))"
  by pat_completeness auto
termination
  by (relation "measure (\<lambda>(x, k). 17 - k)") auto

fun stripZeros :: "string \<Rightarrow> string" where
  "stripZeros ds = rev (dropWhile (\<lambda>c. c = CHR ''0'') (rev ds))"

definition positiveToString :: "rat \<Rightarrow> string" where
  "positiveToString x =
     (let (s, e) = shortest x 1;
          all = digitsOf s;
          n = int (length all) + e;
          ds = stripZeros all;
          k = int (length ds)
      in if k \<le> n \<and> n \<le> 21 then ds @ replicate (nat (n - k)) (CHR ''0'')
         else if 0 < n \<and> n \<le> 21 then take (nat n) ds @ ''.'' @ drop (nat n) ds
         else if - 6 < n \<and> n \<le> 0 then ''0.'' @ replicate (nat (- n)) (CHR ''0'') @ ds
         else (let ex = (if n - 1 < 0 then ''-'' else ''+'') @ digitsOf \<bar>n - 1\<bar>
               in if k = 1 then ds @ ''e'' @ ex
                  else take 1 ds @ ''.'' @ drop 1 ds @ ''e'' @ ex))"

fun numToString :: "jsnum \<Rightarrow> string" where
  "numToString NaN = ''NaN''"
| "numToString PInf = ''Infinity''"
| "numToString NInf = ''-Infinity''"
| "numToString (Fin x) =
     (if x = 0 then ''0'' else if x < 0 then ''-'' @ positiveToString (- x)
      else positiveToString x)"

subsection \<open>\<open>toFixed(1)\<close> and \<open>parseInt\<close>\<close>

text \<open>
  \<open>x.toFixed(1)\<close>: the integer \<open>n\<close> with \<open>n / 10\<close> nearest to the exact value of the
  double (the larger at a tie), printed with one digit after the point; from \<open>10 ^ 21\<close>
  on, and for a value that is not finite, it is \<open>toString\<close>.
\<close>

fun toFixed1 :: "jsnum \<Rightarrow> string" where
  "toFixed1 (Fin x) =
     (if 10 ^ 21 \<le> \<bar>x\<bar> then numToString (Fin x)
      else (let n = \<lfloor>\<bar>x\<bar> * 10 + 1 / 2\<rfloor>;
                m = (if n < 10 then ''0'' @ digitsOf n else digitsOf n);
                k = length m
            in (if x < 0 then ''-'' else []) @ take (k - 1) m @ ''.'' @ drop (k - 1) m))"
| "toFixed1 x = numToString x"

text \<open>The value of a digit in the radixes \<open>parseInt\<close> picks by itself, 10 and 16.\<close>

definition digitVal :: "char \<Rightarrow> int option" where
  "digitVal c =
     (let n = (of_char c :: int)
      in if 48 \<le> n \<and> n \<le> 57 then Some (n - 48)
         else if 97 \<le> n \<and> n \<le> 102 then Some (n - 87)
         else if 65 \<le> n \<and> n \<le> 70 then Some (n - 55)
         else None)"

definition isRadixDigit :: "int \<Rightarrow> char \<Rightarrow> bool" where
  "isRadixDigit r c = (case digitVal c of None \<Rightarrow> False | Some d \<Rightarrow> d < r)"

definition radixValue :: "int \<Rightarrow> string \<Rightarrow> int" where
  "radixValue r z = foldl (\<lambda>acc c. acc * r + (case digitVal c of None \<Rightarrow> 0 | Some d \<Rightarrow> d)) 0 z"

text \<open>
  \<open>parseInt(string)\<close> with no radix: leading white space is dropped, then a sign, then
  a \<open>0x\<close> or \<open>0X\<close> that switches to radix 16; the value is that of the longest
  run of digits, whatever follows it, and \<open>NaN\<close> when that run is empty.
\<close>

definition parseInt :: "string \<Rightarrow> jsnum" where
  "parseInt str =
     (let s0 = dropWhile isSpace str;
          neg = prefix ''-'' s0;
          s1 = (if prefix ''-'' s0 \<or> prefix ''+'' s0 then drop 1 s0 else s0);
          hex = (prefix ''0x'' s1 \<or> prefix ''0X'' s1);
          r = (if hex then 16 else 10);
          s2 = (if hex then drop 2 s1 else s1);
          z = takeWhile (isRadixDigit r) s2
      in if z = [] then NaN
         else fl (if neg then - of_int (radixValue r z) else of_int (radixValue r z)))"

subsection \<open>The data of the action\<close>

text \<open>\<open>interface Stats\<close>.\<close>

record stats =
  passed :: jsnum
  failed :: jsnum
  skipped :: jsnum
  successRate :: jsnum
  timestamp :: jsnum

text \<open>
  The fields of the class, which the source fills from the inputs of the action when the
  object is built. An \<open>alert\<close> switch is true when its input is the text \<open>true\<close>.
\<close>

record config =
  outputXmlPath :: string
  slackWebhookUrl :: string
  slackChannel :: string
  slackUsername :: string
  slackIcon :: string
  slackHeader :: string
  alertChannelOnFailure :: bool
  alertChannelOnSkipped :: bool
  alertChannelOnSuccess :: bool
  alertChannelOnNoOutput :: bool
  noOutputFoundMessage :: string

text \<open>
  The argument of \<open>webhook.send\<close>. The fields \<open>text\<close>, \<open>value\<close> and \<open>fields\<close> of the
  source are \<open>text'\<close>, \<open>value'\<close> and \<open>fields'\<close> here, and the \<open>text\<close> of the envelope
  is \<open>message\<close>.
\<close>

record field =
  title :: string
  value' :: string
  short :: bool

record attachment =
  color :: string
  text' :: string
  mrkdwn_in :: "string list"
  ts :: jsnum
  fields' :: "field list"

record payload =
  channel :: string
  username :: string
  icon_emoji :: string
  message :: string
  attachments :: "attachment list"

text \<open>
  What the run does to its surroundings, in the order in which it does it: the calls of
  \<open>core.info\<close>, \<open>core.error\<close> and \<open>core.setFailed\<close>, and the payloads handed to
  \<open>webhook.send\<close> with the URL of the webhook.
\<close>

datatype effect =
  CoreInfo string
| CoreError string
| CoreSetFailed string
| WebhookSend string payload

text \<open>The promise that \<open>run\<close> returns is fulfilled, or rejected with an error.\<close>

datatype completion = Resolved | Rejected string

text \<open>A \<open>Date\<close> is a time value in milliseconds, or the invalid date.\<close>

datatype date = InvalidDate | Date int

fun getTime :: "date \<Rightarrow> jsnum" where
  "getTime InvalidDate = NaN"
| "getTime (Date t) = Fin (of_int t)"

text \<open>
  What the run takes from outside the source file:
  \<^item> \<open>readFile path\<close>: the text of the file, or \<open>Inl\<close> the printed error when the read
    fails;
  \<^item> \<open>parse dateString formatString\<close>: \<open>parse\<close> of the date library with the current
    time as reference date; it returns the invalid date when the text does not fit the
    format;
  \<^item> \<open>webhookSend url payload\<close>: \<open>None\<close> when the message is delivered, the message of
    the error thrown otherwise;
  \<^item> \<open>runNumber\<close>: \<open>github.context.runNumber\<close>.
\<close>

record env =
  readFile :: "string \<Rightarrow> string + string"
  parse :: "string \<Rightarrow> string \<Rightarrow> date"
  webhookSend :: "string \<Rightarrow> payload \<Rightarrow> string option"
  runNumber :: jsnum

subsection \<open>\<open>getResults\<close>\<close>

text \<open>The text of the report, or \<open>undefined\<close> (\<open>None\<close>) after logging a failed read.\<close>

definition getResults :: "env \<Rightarrow> config \<Rightarrow> effect list \<times> string option" where
  "getResults en cfg =
     (case readFile en (outputXmlPath cfg) of
        Inr results \<Rightarrow> ([], Some results)
      | Inl err \<Rightarrow> ([CoreError (''Error reading results file: '' @ err)], None))"

subsection \<open>\<open>getStats\<close>\<close>

text \<open>
  The three calls of \<open>getArg\<close> run in the order pass, fail, skip, and the first that
  throws ends \<open>getStats\<close>: the error is logged with \<open>core.error\<close> and thrown (\<open>Inl\<close>).
  Without a matched line \<open>getStats\<close> logs and returns \<open>undefined\<close> (\<open>Inr None\<close>).
\<close>

definition getStats :: "env \<Rightarrow> string \<Rightarrow> effect list \<times> (string + stats option)" where
  "getStats en resultsXml =
     (case findStat resultsXml of
        None \<Rightarrow> ([CoreError ''Error getting stats from XML''], Inr None)
      | Some line \<Rightarrow>
          (case getArg line ''pass'' of
             Inl e \<Rightarrow> ([CoreError e], Inl e)
           | Inr p \<Rightarrow>
          (case getArg line ''fail'' of
             Inl e \<Rightarrow> ([CoreError e], Inl e)
           | Inr f \<Rightarrow>
          (case getArg line ''skip'' of
             Inl e \<Rightarrow> ([CoreError e], Inl e)
           | Inr k \<Rightarrow>
             (let passed = parseInt p;
                  failed = parseInt f;
                  skipped = parseInt k;
                  successRate =
                    parseInt (toFixed1
                      (jsMul (jsDiv passed (jsAdd (jsAdd passed failed) skipped)) (Fin 100)));
                  generated = (case findGenerated resultsXml of None \<Rightarrow> [] | Some g \<Rightarrow> g);
                  timestamp = getTime (parse en generated ''yyyyMMdd HH:mm:ss.SSS'')
              in ([], Inr (Some \<lparr>passed = passed, failed = failed, skipped = skipped,
                                 successRate = successRate, timestamp = timestamp\<rparr>)))))))"

subsection \<open>\<open>getColor\<close>, \<open>sendSlackMessage\<close>, \<open>sendStats\<close>\<close>

definition getColor :: "stats \<Rightarrow> string" where
  "getColor st =
     (if jsEq (successRate st) (Fin 100) then ''#2EB67D''
      else if jsGt (successRate st) (Fin 80) then ''#ECB22E''
      else ''#E01E5A'')"

text \<open>The payload is handed to the webhook; \<open>Some\<close> is the error the call throws.\<close>

definition sendSlackMessage ::
    "env \<Rightarrow> config \<Rightarrow> string \<Rightarrow> attachment list \<Rightarrow> effect list \<times> string option" where
  "sendSlackMessage en cfg msg atts =
     (let p = \<lparr>channel = slackChannel cfg, username = slackUsername cfg,
                 icon_emoji = slackIcon cfg, message = msg, attachments = atts\<rparr>
      in ([WebhookSend (slackWebhookUrl cfg) p], webhookSend en (slackWebhookUrl cfg) p))"

definition statsAttachment :: "config \<Rightarrow> stats \<Rightarrow> attachment" where
  "statsAttachment cfg st =
     \<lparr>color = getColor st,
      text' = slackHeader cfg,
      mrkdwn_in = [''text'', ''fields''],
      ts = timestamp st,
      fields' =
        [\<lparr>title = ''*Passed:*'', value' = numToString (passed st), short = True\<rparr>,
         \<lparr>title = ''*Failed:*'', value' = numToString (failed st), short = True\<rparr>,
         \<lparr>title = ''*Skipped:*'', value' = numToString (skipped st), short = True\<rparr>,
         \<lparr>title = ''*Success Rate:*'', value' = numToString (successRate st) @ ''%'',
          short = True\<rparr>]\<rparr>"

definition sendStats :: "env \<Rightarrow> config \<Rightarrow> stats \<Rightarrow> effect list \<times> string option" where
  "sendStats en cfg st =
     sendSlackMessage en cfg (''Robot Test Results #'' @ numToString (runNumber en))
       [statsAttachment cfg st]"

subsection \<open>\<open>run\<close>\<close>

text \<open>
  \<open>!resultsXml\<close> is true for \<open>undefined\<close> and for the empty text. The send of that
  branch is outside the \<open>try\<close>: an error of the webhook rejects the promise. In the
  \<open>try\<close>, an error thrown by \<open>getStats\<close> or by the send goes to \<open>core.setFailed\<close>.
\<close>

definition noOutput :: "env \<Rightarrow> config \<Rightarrow> effect list \<times> completion" where
  "noOutput en cfg =
     (if alertChannelOnNoOutput cfg then
        (case sendSlackMessage en cfg (noOutputFoundMessage cfg) [] of
           (es, None) \<Rightarrow> (es, Resolved)
         | (es, Some err) \<Rightarrow> (es, Rejected err))
      else ([], Resolved))"

definition tryStats :: "env \<Rightarrow> config \<Rightarrow> string \<Rightarrow> effect list" where
  "tryStats en cfg resultsXml =
     (case getStats en resultsXml of
        (es, Inl err) \<Rightarrow> es @ [CoreSetFailed err]
      | (es, Inr None) \<Rightarrow> es @ [CoreSetFailed ''Error getting stats from XML'']
      | (es, Inr (Some st)) \<Rightarrow>
          (case sendStats en cfg st of
             (es', None) \<Rightarrow> es @ es'
           | (es', Some err) \<Rightarrow> es @ es' @ [CoreSetFailed err]))"

definition run :: "env \<Rightarrow> config \<Rightarrow> effect list \<times> completion" where
  "run en cfg =
     (let start = [CoreInfo ''Running Robot Framework Results To Slack''];
          (es, resultsXml) = getResults en cfg
      in case resultsXml of
           None \<Rightarrow> (case noOutput en cfg of (es', c) \<Rightarrow> (start @ es @ es', c))
         | Some [] \<Rightarrow> (case noOutput en cfg of (es', c) \<Rightarrow> (start @ es @ es', c))
         | Some (c # cs) \<Rightarrow> (start @ es @ tryStats en cfg (c # cs), Resolved))"

subsection \<open>A concrete environment for the examples\<close>

text \<open>
  Modelled from the spec: the \<open>parse\<close> function of the date library, which is not part
  of the source file, for the one format the action uses: ``the fixed format
  \<open>yyyyMMdd HH:mm:ss.SSS\<close> (4-digit year, 2-digit month/day, 24-hour time, millisecond
  precision, no timezone -- treat as local/naive time)''. The local zone is taken to be UTC.
  A text that does not fit is the invalid date, as the library documents.
\<close>

definition isDigit :: "char \<Rightarrow> bool" where
  "isDigit c = isRadixDigit 10 c"

definition leapYear :: "int \<Rightarrow> bool" where
  "leapYear y = (y mod 4 = 0 \<and> (y mod 100 \<noteq> 0 \<or> y mod 400 = 0))"

definition daysInMonth :: "int \<Rightarrow> int \<Rightarrow> int" where
  "daysInMonth y m =
     (if m = 2 then (if leapYear y then 29 else 28)
      else if m = 4 \<or> m = 6 \<or> m = 9 \<or> m = 11 then 30 else 31)"

text \<open>Days from 1970-01-01 to the given day of the proleptic Gregorian calendar.\<close>

definition daysFromCivil :: "int \<Rightarrow> int \<Rightarrow> int \<Rightarrow> int" where
  "daysFromCivil y m d =
     (let y1 = (if m \<le> 2 then y - 1 else y);
          era = y1 div 400;
          yoe = y1 - era * 400;
          doy = (153 * (if 2 < m then m - 3 else m + 9) + 2) div 5 + d - 1;
          doe = yoe * 365 + yoe div 4 - yoe div 100 + doy
      in era * 146097 + doe - 719468)"

definition parseFixed :: "string \<Rightarrow> string \<Rightarrow> date" where
  "parseFixed dateString formatString =
     (if formatString \<noteq> ''yyyyMMdd HH:mm:ss.SSS'' \<or> length dateString \<noteq> 21 then InvalidDate
      else (let yy = take 4 dateString; mo = take 2 (drop 4 dateString);
                dd = take 2 (drop 6 dateString); hh = take 2 (drop 9 dateString);
                mi = take 2 (drop 12 dateString); ss = take 2 (drop 15 dateString);
                ms = take 3 (drop 18 dateString);
                y = radixValue 10 yy; m = radixValue 10 mo; d = radixValue 10 dd;
                h = radixValue 10 hh; n = radixValue 10 mi; s = radixValue 10 ss
            in if list_all isDigit (yy @ mo @ dd @ hh @ mi @ ss @ ms)
                  \<and> dateString ! 8 = CHR '' '' \<and> dateString ! 11 = CHR '':''
                  \<and> dateString ! 14 = CHR '':'' \<and> dateString ! 17 = CHR ''.''
                  \<and> 1 \<le> m \<and> m \<le> 12 \<and> 1 \<le> d \<and> d \<le> daysInMonth y m
                  \<and> h < 24 \<and> n < 60 \<and> s < 60
               then Date ((((daysFromCivil y m d * 24 + h) * 60 + n) * 60 + s) * 1000
                          + radixValue 10 ms)
               else InvalidDate))"

text \<open>A report file with the given text, and a report file that cannot be read.\<close>

fun fileWith :: "string \<Rightarrow> string \<Rightarrow> string + string" where
  "fileWith content path = Inr content"

fun fileMissing :: "string \<Rightarrow> string + string" where
  "fileMissing path = Inl ''Error: ENOENT: no such file or directory''"

text \<open>A webhook that accepts every message, and one that refuses every message.\<close>

fun deliverOk :: "string \<Rightarrow> payload \<Rightarrow> string option" where
  "deliverOk url p = None"

fun deliverFails :: "string \<Rightarrow> payload \<Rightarrow> string option" where
  "deliverFails url p = Some ''An HTTP protocol error occurred: statusCode = 404''"

definition envWith :: "string \<Rightarrow> env" where
  "envWith content =
     \<lparr>readFile = fileWith content, parse = parseFixed, webhookSend = deliverOk,
      runNumber = Fin 7\<rparr>"

definition envMissing :: env where
  "envMissing =
     \<lparr>readFile = fileMissing, parse = parseFixed, webhookSend = deliverOk, runNumber = Fin 7\<rparr>"

text \<open>A configuration with every alert switch off, and the same with one switch on.\<close>

definition quietConfig :: config where
  "quietConfig =
     \<lparr>outputXmlPath = ''output.xml'', slackWebhookUrl = ''https://hooks.slack.test/T'',
      slackChannel = ''#ci'', slackUsername = ''robot'', slackIcon = '':robot_face:'',
      slackHeader = ''Nightly'', alertChannelOnFailure = False, alertChannelOnSkipped = False,
      alertChannelOnSuccess = False, alertChannelOnNoOutput = False,
      noOutputFoundMessage = ''No results found''\<rparr>"

definition noOutputConfig :: config where
  "noOutputConfig = quietConfig\<lparr>alertChannelOnNoOutput := True\<rparr>"

text \<open>The statistics line of a report with the given attribute text.\<close>

definition statLine :: "string \<Rightarrow> string" where
  "statLine as = ''<stat '' @ as @ ''>All Tests</stat>''"

definition report :: "string \<Rightarrow> string" where
  "report as =
     ''<robot generator=\"Robot 6.0\" generated=\"20230102 03:04:05.678\"><statistics><total>''
       @ statLine as @ ''</total></statistics></robot>''"

subsection \<open>Vocabulary of the properties\<close>

text \<open>
  A text has a summary record when the first regular expression can match somewhere in it:
  \<open><stat\<close>, at least one character other than \<open>>\<close>, and \<open>>All Tests</stat>\<close>.
\<close>

definition hasSummary :: "string \<Rightarrow> bool" where
  "hasSummary s =
     (\<exists>pre r post. s = pre @ ''<stat'' @ r @ ''>All Tests</stat>'' @ post
        \<and> r \<noteq> [] \<and> CHR ''>'' \<notin> set r)"

text \<open>
  A summary record written from a list of attributes. An attribute is the white space
  before it, its name and its value; it is written \<open>name="value"\<close> after the white space.
  More white space may stand between the last attribute and the \<open>>\<close>.
\<close>

type_synonym attr = "string \<times> string \<times> string"

fun renderAttrs :: "attr list \<Rightarrow> string" where
  "renderAttrs [] = []"
| "renderAttrs ((sep, n, v) # as) =
     sep @ n @ [CHR ''='', CHR 0x22] @ v @ [CHR 0x22] @ renderAttrs as"

definition statRecord :: "attr list \<Rightarrow> string \<Rightarrow> string" where
  "statRecord as trail = ''<stat'' @ renderAttrs as @ trail @ ''>All Tests</stat>''"

text \<open>The attributes as pairs of name and value, without the white space.\<close>

definition pairsOf :: "attr list \<Rightarrow> (string \<times> string) list" where
  "pairsOf as = map snd as"

definition counted :: "string list" where
  "counted = [''pass'', ''fail'', ''skip'']"

text \<open>
  The shape of an attribute: white space before it, a name without white space, \<open>=\<close>,
  double quote or \<open>>\<close>, and a value without double quote or \<open>>\<close>. A value may contain
  white space.
\<close>

definition valueChar :: "char \<Rightarrow> bool" where
  "valueChar c = (notQuote c \<and> notGt c)"

definition nameChar :: "char \<Rightarrow> bool" where
  "nameChar c = (notSpace c \<and> notQuote c \<and> notGt c \<and> c \<noteq> CHR ''='')"

fun wfAttr :: "attr \<Rightarrow> bool" where
  "wfAttr (sep, n, v) =
     (sep \<noteq> [] \<and> list_all isSpace sep \<and> list_all nameChar n \<and> list_all valueChar v)"

text \<open>A value that the scan of \<open>getArg\<close> can read: not empty and without white space.\<close>

definition readable :: "string \<Rightarrow> bool" where
  "readable v = (v \<noteq> [] \<and> list_all notSpace v)"

text \<open>
  The value of the first attribute whose name ends with the given word and whose value is
  readable.
\<close>

fun lookupArg :: "string \<Rightarrow> (string \<times> string) list \<Rightarrow> string option" where
  "lookupArg a [] = None"
| "lookupArg a ((n, v) # ps) =
     (if suffix a n \<and> readable v then Some v else lookupArg a ps)"

text \<open>
  No attribute other than \<open>pass\<close>, \<open>fail\<close> and \<open>skip\<close> themselves has both a name that ends
  with one of these words and a readable value.
\<close>

fun shadows :: "string \<times> string \<Rightarrow> string \<Rightarrow> bool" where
  "shadows (n, v) a = (suffix a n \<and> n \<noteq> a \<and> readable v)"

definition shadowFree :: "(string \<times> string) list \<Rightarrow> bool" where
  "shadowFree ps = list_all (\<lambda>p. list_all (\<lambda>a. \<not> shadows p a) counted) ps"


text \<open>The \<open>Stats\<close> of a result of \<open>getStats\<close>, when it has one, and its three counts.\<close>

fun statsOf :: "effect list \<times> (string + stats option) \<Rightarrow> stats option" where
  "statsOf (es, Inr (Some st)) = Some st"
| "statsOf (es, r) = None"


fun countsOf :: "effect list \<times> (string + stats option) \<Rightarrow> (jsnum \<times> jsnum \<times> jsnum) option" where
  "countsOf (es, Inr (Some st)) = Some (passed st, failed st, skipped st)"
| "countsOf (es, r) = None"

section \<open>Properties\<close>

subsection \<open>The match of the summary record\<close>

lemma takeWhile_notGt_run:
  "CHR ''>'' \<notin> set r \<Longrightarrow> takeWhile notGt (r @ CHR ''>'' # rest) = r"
  by (induction r) (auto simp: notGt_def)

lemma dropWhile_notGt_run:
  "CHR ''>'' \<notin> set r \<Longrightarrow> dropWhile notGt (r @ CHR ''>'' # rest) = CHR ''>'' # rest"
  by (induction r) (auto simp: notGt_def)

lemma statAt_hit:
  assumes "r \<noteq> []" and "CHR ''>'' \<notin> set r"
  shows "statAt (''<stat'' @ r @ ''>All Tests</stat>'' @ post)
           = Some (''<stat'' @ r @ ''>All Tests</stat>'')"
  using assms takeWhile_notGt_run [of r "''All Tests</stat>'' @ post"]
    dropWhile_notGt_run [of r "''All Tests</stat>'' @ post"]
  by (simp add: statAt_def)

lemma statAt_shape:
  assumes "statAt s = Some m"
  shows "\<exists>r post. s = ''<stat'' @ r @ ''>All Tests</stat>'' @ post \<and> r \<noteq> []
           \<and> CHR ''>'' \<notin> set r \<and> m = ''<stat'' @ r @ ''>All Tests</stat>''"
proof -
  from assms have p: "prefix ''<stat'' s"
    by (auto simp: statAt_def split: if_splits)
  then obtain rest where s: "s = ''<stat'' @ rest"
    by (auto simp: prefix_def)
  define r where "r = takeWhile notGt rest"
  define after where "after = dropWhile notGt rest"
  from assms s have nz: "r \<noteq> []" and pa: "prefix ''>All Tests</stat>'' after"
    and m: "m = ''<stat'' @ r @ ''>All Tests</stat>''"
    by (auto simp: statAt_def Let_def r_def after_def split: if_splits)
  from pa obtain post where a: "after = ''>All Tests</stat>'' @ post"
    by (auto simp: prefix_def)
  have "rest = r @ after"
    by (simp add: r_def after_def)
  moreover have "CHR ''>'' \<notin> set r"
    unfolding r_def by (auto dest: set_takeWhileD simp: notGt_def)
  ultimately show ?thesis
    using s a nz m by auto
qed

lemma findStat_Some_hasSummary:
  "findStat s = Some m \<Longrightarrow> hasSummary s"
proof (induction s)
  case Nil
  then show ?case by simp
next
  case (Cons c cs)
  show ?case
  proof (cases "statAt (c # cs)")
    case None
    with Cons have "hasSummary cs" by simp
    then obtain pre r post where "cs = pre @ ''<stat'' @ r @ ''>All Tests</stat>'' @ post"
      "r \<noteq> []" "CHR ''>'' \<notin> set r"
      unfolding hasSummary_def by blast
    then have "c # cs = (c # pre) @ ''<stat'' @ r @ ''>All Tests</stat>'' @ post" by simp
    with \<open>r \<noteq> []\<close> \<open>CHR ''>'' \<notin> set r\<close> show ?thesis
      unfolding hasSummary_def by blast
  next
    case (Some a)
    from statAt_shape [OF Some] obtain r post where
      "c # cs = [] @ ''<stat'' @ r @ ''>All Tests</stat>'' @ post" "r \<noteq> []" "CHR ''>'' \<notin> set r"
      by auto
    then show ?thesis unfolding hasSummary_def by blast
  qed
qed

lemma findStat_complete:
  assumes "r \<noteq> []" and "CHR ''>'' \<notin> set r"
  shows "findStat (pre @ ''<stat'' @ r @ ''>All Tests</stat>'' @ post) \<noteq> None"
proof (induction pre)
  case Nil
  show ?case using statAt_hit [OF assms, of post] by simp
next
  case (Cons c pre)
  then show ?case by (simp split: option.splits)
qed

lemma findStat_None_iff: "findStat s = None \<longleftrightarrow> \<not> hasSummary s"
proof
  assume "findStat s = None"
  show "\<not> hasSummary s"
  proof
    assume "hasSummary s"
    then obtain pre r post where "s = pre @ ''<stat'' @ r @ ''>All Tests</stat>'' @ post"
      "r \<noteq> []" "CHR ''>'' \<notin> set r"
      unfolding hasSummary_def by blast
    with findStat_complete [of r pre post] \<open>findStat s = None\<close> show False by simp
  qed
next
  assume "\<not> hasSummary s"
  then show "findStat s = None"
    using findStat_Some_hasSummary by (cases "findStat s") auto
qed

lemma findStat_nonempty: "findStat s = Some m \<Longrightarrow> s \<noteq> []"
  by auto

subsection \<open>The scan of \<open>getArg\<close>\<close>

lemma findAfter_sublist: "findAfter pat s = Some v \<Longrightarrow> sublist pat s"
proof (induction s)
  case Nil
  then show ?case by simp
next
  case (Cons c cs)
  show ?case
  proof (cases "prefix pat (c # cs)")
    case True
    then show ?thesis by (rule prefix_imp_sublist)
  next
    case False
    with Cons have "sublist pat cs" by simp
    then show ?thesis by (simp add: sublist_Cons_right)
  qed
qed

lemma prefix_split_at:
  "c \<notin> set a \<Longrightarrow> c \<notin> set w \<Longrightarrow> prefix (a @ c # p) (w @ c # q) \<Longrightarrow> a = w"
proof (induction a arbitrary: w)
  case Nil
  then show ?case by (cases w) auto
next
  case (Cons x a)
  then show ?case by (cases w) auto
qed

lemma prefix_head_mismatch:
  "pat \<noteq> [] \<Longrightarrow> zs \<noteq> [] \<Longrightarrow> hd zs \<noteq> hd pat \<Longrightarrow> \<not> prefix pat (zs @ ys)"
  by (cases pat; cases zs) auto

lemma findAfter_skip:
  assumes "\<And>zs. zs \<noteq> [] \<Longrightarrow> suffix zs xs \<Longrightarrow> prefix pat (zs @ ys)
             \<Longrightarrow> valueAt (drop (length pat) (zs @ ys)) = None"
  shows "findAfter pat (xs @ ys) = findAfter pat ys"
  using assms
proof (induction xs)
  case Nil
  then show ?case by simp
next
  case (Cons x xs)
  have "findAfter pat (xs @ ys) = findAfter pat ys"
  proof (rule Cons.IH)
    fix zs assume "zs \<noteq> []" "suffix zs xs" "prefix pat (zs @ ys)"
    then show "valueAt (drop (length pat) (zs @ ys)) = None"
      using Cons.prems [of zs] by (simp add: suffix_Cons)
  qed
  moreover have "prefix pat ((x # xs) @ ys)
      \<Longrightarrow> valueAt (drop (length pat) ((x # xs) @ ys)) = None"
    using Cons.prems [of "x # xs"] by simp
  ultimately show ?case by (auto split: option.splits)
qed

lemma findAfter_here:
  "s \<noteq> [] \<Longrightarrow> prefix pat s \<Longrightarrow> valueAt (drop (length pat) s) = Some v
     \<Longrightarrow> findAfter pat s = Some v"
  by (cases s) auto

lemma valueAt_quiet:
  "CHR 0x22 \<notin> set (takeWhile notSpace rest) \<Longrightarrow> valueAt rest = None"
  by (auto simp: valueAt_def split: list.splits)

lemma dropWhile_stop:
  "list_all P xs \<Longrightarrow> \<not> P y \<Longrightarrow> dropWhile P (xs @ y # ys) = y # ys"
  by (induction xs) auto

lemma valueAt_value:
  assumes "CHR 0x22 \<notin> set v" and "CHR 0x22 \<notin> set (takeWhile notSpace rest)"
  shows "valueAt (v @ CHR 0x22 # rest) = (if readable v then Some v else None)"
proof (cases "list_all notSpace v")
  case True
  define R where "R = takeWhile notSpace rest"
  have q: "notSpace (CHR 0x22)" by (simp add: notSpace_def isSpace_def)
  have tw: "takeWhile notSpace (v @ CHR 0x22 # rest) = v @ CHR 0x22 # R"
    using True q by (simp add: takeWhile_append2 list_all_iff R_def)
  have nq: "list_all notQuote (rev R)"
    using assms(2) by (auto simp: notQuote_def R_def list_all_iff)
  show ?thesis
  proof (cases v)
    case Nil
    with tw assms(2) show ?thesis by (simp add: valueAt_def R_def readable_def)
  next
    case (Cons c cs)
    have "dropWhile notQuote (rev R @ CHR 0x22 # rev cs) = CHR 0x22 # rev cs"
      using nq by (rule dropWhile_stop) (simp add: notQuote_def)
    then have "beforeLastQuote (cs @ CHR 0x22 # R) = cs"
      by (simp add: beforeLastQuote_def)
    with tw Cons True show ?thesis by (simp add: valueAt_def readable_def)
  qed
next
  case False
  then have "\<exists>x \<in> set v. \<not> notSpace x" by (simp add: list_all_iff)
  then have tw: "takeWhile notSpace (v @ CHR 0x22 # rest) = takeWhile notSpace v"
    by (auto simp: takeWhile_append1)
  have "set (takeWhile notSpace v) \<subseteq> set v" by (auto dest: set_takeWhileD)
  with assms(1) have "CHR 0x22 \<notin> set (takeWhile notSpace v)" by auto
  then have "valueAt (v @ CHR 0x22 # rest) = None"
    unfolding valueAt_def tw by (auto split: list.splits)
  with False show ?thesis by (simp add: readable_def)
qed

lemma counted_facts:
  assumes "a \<in> set counted"
  shows "a \<noteq> []" and "CHR ''='' \<notin> set a" and "CHR 0x22 \<notin> set a" and "notSpace (hd a)"
    and "hd a \<noteq> CHR ''=''" and "hd a \<noteq> CHR 0x22"
  using assms by (auto simp: counted_def notSpace_def isSpace_def)

lemma counted_members:
  "''pass'' \<in> set counted" "''fail'' \<in> set counted" "''skip'' \<in> set counted"
  by (simp_all add: counted_def)

lemma findAfter_stat_prefix:
  "a \<in> set counted \<Longrightarrow>
     findAfter (a @ [CHR ''='', CHR 0x22]) (''<stat'' @ ys) = findAfter (a @ [CHR ''='', CHR 0x22]) ys"
  unfolding counted_def by (elim disjE | simp)+

lemma findAfter_no_quote:
  assumes "CHR 0x22 \<notin> set s"
  shows "findAfter (a @ [CHR ''='', CHR 0x22]) s = None"
proof (cases "findAfter (a @ [CHR ''='', CHR 0x22]) s")
  case None
  then show ?thesis .
next
  case (Some v)
  then have "sublist (a @ [CHR ''='', CHR 0x22]) s" by (rule findAfter_sublist)
  then have "set (a @ [CHR ''='', CHR 0x22]) \<subseteq> set s" by (rule set_mono_sublist)
  with assms show ?thesis by simp
qed

lemma isSpace_not_quote: "isSpace c \<Longrightarrow> c \<noteq> CHR 0x22"
  by (auto simp: isSpace_def)

lemma isSpace_not_gt: "isSpace c \<Longrightarrow> c \<noteq> CHR ''>''"
  by (auto simp: isSpace_def)

lemma findAfter_tail:
  assumes "list_all isSpace trail"
  shows "findAfter (a @ [CHR ''='', CHR 0x22]) (trail @ ''>All Tests</stat>'') = None"
proof (rule findAfter_no_quote)
  from assms have "CHR 0x22 \<notin> set trail"
    using isSpace_not_quote by (auto simp: list_all_iff)
  then show "CHR 0x22 \<notin> set (trail @ ''>All Tests</stat>'')" by simp
qed

lemma quiet_tail:
  assumes "list_all isSpace trail"
  shows "CHR 0x22 \<notin> set (takeWhile notSpace (trail @ ''>All Tests</stat>''))"
proof (cases trail)
  case Nil
  then show ?thesis by (simp add: notSpace_def isSpace_def)
next
  case (Cons c cs)
  with assms have "isSpace c" by simp
  with Cons show ?thesis by (simp add: notSpace_def)
qed

lemma quiet_rest:
  assumes "list_all wfAttr as" and "list_all isSpace trail"
  shows "CHR 0x22 \<notin> set (takeWhile notSpace (renderAttrs as @ trail @ ''>All Tests</stat>''))"
proof (cases as)
  case Nil
  then show ?thesis using quiet_tail [OF assms(2)] by simp
next
  case (Cons x xs)
  with assms(1) obtain sep n v where x: "x = (sep, n, v)" and "sep \<noteq> []" "list_all isSpace sep"
    by (cases x) auto
  then obtain c cs where "sep = c # cs" "isSpace c" by (cases sep) auto
  with Cons x show ?thesis by (simp add: notSpace_def)
qed

lemma findAfter_attr:
  assumes a: "a \<in> set counted" and wf: "wfAttr (sep, n, v)"
    and q: "CHR 0x22 \<notin> set (takeWhile notSpace rest)"
  shows "findAfter (a @ [CHR ''='', CHR 0x22]) (sep @ n @ [CHR ''='', CHR 0x22] @ v @ [CHR 0x22] @ rest)
           = (if suffix a n \<and> readable v then Some v
              else findAfter (a @ [CHR ''='', CHR 0x22]) rest)"
proof -
  define pat where "pat = a @ [CHR ''='', CHR 0x22]"
  note cf = counted_facts [OF a]
  have pat_ne: "pat \<noteq> []" and hd_pat: "hd pat = hd a"
    using cf(1) by (simp_all add: pat_def)
  have len: "length pat = length a + 2" by (simp add: pat_def)
  from wf have sep: "list_all isSpace sep" and nm: "list_all nameChar n"
    and vl: "list_all valueChar v"
    by simp_all
  have v_nq: "CHR 0x22 \<notin> set v"
    using vl by (auto simp: list_all_iff valueChar_def notQuote_def)
  have n_ne: "CHR ''='' \<notin> set n"
    using nm by (auto simp: list_all_iff nameChar_def)
  let ?Y5 = "rest"
  let ?Y4 = "[CHR 0x22] @ ?Y5"
  let ?Y3 = "v @ ?Y4"
  let ?Y2 = "[CHR ''='', CHR 0x22] @ ?Y3"
  let ?Y1 = "n @ ?Y2"
  have s5: "findAfter pat ?Y4 = findAfter pat ?Y5"
  proof (rule findAfter_skip)
    fix zs :: string assume "zs \<noteq> []" "suffix zs [CHR 0x22]" "prefix pat (zs @ ?Y5)"
    then have "hd zs = CHR 0x22" by (cases zs) (auto simp: suffix_Cons)
    with cf(6) hd_pat have "hd zs \<noteq> hd pat" by simp
    with prefix_head_mismatch [OF pat_ne \<open>zs \<noteq> []\<close>] \<open>prefix pat (zs @ ?Y5)\<close>
    show "valueAt (drop (length pat) (zs @ ?Y5)) = None" by blast
  qed
  have s4: "findAfter pat ?Y3 = findAfter pat ?Y4"
  proof (rule findAfter_skip)
    fix zs :: string assume zs: "zs \<noteq> []" "suffix zs v" and p: "prefix pat (zs @ ?Y4)"
    from zs(2) have "set zs \<subseteq> set v" by (rule set_mono_suffix)
    with v_nq have f1: "CHR 0x22 \<notin> set zs" by auto
    have f2: "CHR 0x22 \<notin> set (a @ [CHR ''=''])" using cf(3) by simp
    from p have f3: "prefix ((a @ [CHR ''='']) @ CHR 0x22 # []) (zs @ CHR 0x22 # rest)"
      by (simp add: pat_def)
    have "a @ [CHR ''=''] = zs" by (rule prefix_split_at [OF f2 f1 f3])
    then have "length zs = length a + 1" by auto
    then have "drop (length pat) (zs @ ?Y4) = rest" by (simp add: len)
    with q show "valueAt (drop (length pat) (zs @ ?Y4)) = None"
      by (simp add: valueAt_quiet)
  qed
  have s3: "findAfter pat ?Y2 = findAfter pat ?Y3"
  proof (rule findAfter_skip)
    fix zs :: string
    assume "zs \<noteq> []" "suffix zs [CHR ''='', CHR 0x22]" "prefix pat (zs @ ?Y3)"
    then have "hd zs = CHR ''='' \<or> hd zs = CHR 0x22" by (cases zs) (auto simp: suffix_Cons)
    with cf(5,6) hd_pat have "hd zs \<noteq> hd pat" by auto
    with prefix_head_mismatch [OF pat_ne \<open>zs \<noteq> []\<close>] \<open>prefix pat (zs @ ?Y3)\<close>
    show "valueAt (drop (length pat) (zs @ ?Y3)) = None" by blast
  qed
  have s1: "findAfter pat (sep @ ?Y1) = findAfter pat ?Y1"
  proof (rule findAfter_skip)
    fix zs :: string assume zs: "zs \<noteq> []" "suffix zs sep" and p: "prefix pat (zs @ ?Y1)"
    from zs(2) have "set zs \<subseteq> set sep" by (rule set_mono_suffix)
    with zs(1) sep have "isSpace (hd zs)" by (cases zs) (auto simp: list_all_iff)
    with cf(4) hd_pat have "hd zs \<noteq> hd pat" by (auto simp: notSpace_def)
    with prefix_head_mismatch [OF pat_ne zs(1)] p
    show "valueAt (drop (length pat) (zs @ ?Y1)) = None" by blast
  qed
  have at_name: "ws = a" if ws: "CHR ''='' \<notin> set ws" and p: "prefix pat (ws @ ?Y2)" for ws
  proof -
    from p have f3: "prefix (a @ CHR ''='' # [CHR 0x22]) (ws @ CHR ''='' # CHR 0x22 # ?Y3)"
      by (simp add: pat_def)
    have "a = ws" by (rule prefix_split_at [OF cf(2) ws f3])
    then show ?thesis by simp
  qed
  have val: "valueAt (drop (length pat) (a @ ?Y2)) = (if readable v then Some v else None)"
    using valueAt_value [OF v_nq q] by (simp add: len)
  have s2: "findAfter pat ?Y1 = (if suffix a n \<and> readable v then Some v else findAfter pat ?Y2)"
  proof (cases "suffix a n \<and> readable v")
    case True
    then obtain n1 where n: "n = n1 @ a" by (auto simp: suffix_def)
    have here: "findAfter pat (a @ ?Y2) = Some v"
    proof (rule findAfter_here)
      show "a @ ?Y2 \<noteq> []" by simp
      show "prefix pat (a @ ?Y2)" by (simp add: pat_def)
      show "valueAt (drop (length pat) (a @ ?Y2)) = Some v" using val True by simp
    qed
    have "findAfter pat (n1 @ (a @ ?Y2)) = findAfter pat (a @ ?Y2)"
    proof (rule findAfter_skip)
      fix zs :: string
      assume zs: "zs \<noteq> []" "suffix zs n1" and p: "prefix pat (zs @ a @ ?Y2)"
      from zs(2) have "set zs \<subseteq> set n1" by (rule set_mono_suffix)
      with n_ne n cf(2) have "CHR ''='' \<notin> set (zs @ a)" by auto
      moreover from p have "prefix pat ((zs @ a) @ ?Y2)" by simp
      ultimately have "zs @ a = a" by (rule at_name)
      with zs(1) show "valueAt (drop (length pat) (zs @ a @ ?Y2)) = None" by simp
    qed
    with here n True show ?thesis by simp
  next
    case False
    have e: "findAfter pat (n @ ?Y2) = findAfter pat ?Y2"
    proof (rule findAfter_skip)
      fix zs :: string assume zs: "zs \<noteq> []" "suffix zs n" and p: "prefix pat (zs @ ?Y2)"
      from zs(2) have "set zs \<subseteq> set n" by (rule set_mono_suffix)
      with n_ne have "CHR ''='' \<notin> set zs" by auto
      from at_name [OF this p] have "zs = a" .
      with zs(2) False have "\<not> readable v" by simp
      with val \<open>zs = a\<close> show "valueAt (drop (length pat) (zs @ ?Y2)) = None" by simp
    qed
    show ?thesis unfolding e using False by (simp only: if_False)
  qed
  have "findAfter pat (sep @ ?Y1)
          = (if suffix a n \<and> readable v then Some v else findAfter pat rest)"
    by (simp only: s1 s2 s3 s4 s5)
  then show ?thesis unfolding pat_def .
qed

lemma findAfter_renderAttrs:
  assumes "a \<in> set counted" and "list_all wfAttr as" and "list_all isSpace trail"
  shows "findAfter (a @ [CHR ''='', CHR 0x22]) (renderAttrs as @ trail @ ''>All Tests</stat>'')
           = lookupArg a (pairsOf as)"
  using assms(2)
proof (induction as)
  case Nil
  show ?case using findAfter_tail [OF assms(3), of a] by (simp add: pairsOf_def)
next
  case (Cons x as)
  obtain sep n v where x: "x = (sep, n, v)" by (cases x) auto
  from Cons.prems x have wf: "wfAttr (sep, n, v)" and rest: "list_all wfAttr as"
    by simp_all
  have "findAfter (a @ [CHR ''='', CHR 0x22])
          (sep @ n @ [CHR ''='', CHR 0x22] @ v @ [CHR 0x22]
             @ (renderAttrs as @ trail @ ''>All Tests</stat>''))
        = (if suffix a n \<and> readable v then Some v
           else findAfter (a @ [CHR ''='', CHR 0x22])
                  (renderAttrs as @ trail @ ''>All Tests</stat>''))"
    by (rule findAfter_attr [OF assms(1) wf quiet_rest [OF rest assms(3)]])
  with Cons.IH [OF rest] x show ?case by (simp add: pairsOf_def)
qed

lemma getArg_statRecord:
  assumes "a \<in> set counted" and "list_all wfAttr as" and "list_all isSpace trail"
  shows "getArg (statRecord as trail) a
           = (case lookupArg a (pairsOf as) of
                None \<Rightarrow> Inl (''Error getting '' @ a @ '' from XML'')
              | Some v \<Rightarrow> Inr v)"
  using findAfter_renderAttrs [OF assms] findAfter_stat_prefix [OF assms(1)]
  by (simp add: getArg_def statRecord_def)

lemma lookupArg_map_of:
  assumes "a \<in> set counted"
  shows "shadowFree ps \<Longrightarrow> distinct (map fst ps) \<Longrightarrow>
     lookupArg a ps = (case map_of ps a of None \<Rightarrow> None
                       | Some v \<Rightarrow> if readable v then Some v else None)"
proof (induction ps)
  case Nil
  then show ?case by simp
next
  case (Cons p ps)
  obtain n v where p: "p = (n, v)" by (cases p) auto
  from Cons.prems p assms have ns: "\<not> (suffix a n \<and> n \<noteq> a \<and> readable v)"
    and sf: "shadowFree ps" and d: "distinct (map fst ps)"
    by (auto simp: shadowFree_def list_all_iff)
  note ih = Cons.IH [OF sf d]
  show ?case
  proof (cases "n = a")
    case True
    with Cons.prems p have "a \<notin> fst ` set ps" by auto
    then have "map_of ps a = None" by (simp add: map_of_eq_None_iff)
    with ih p True show ?thesis by simp
  next
    case False
    with ns have "\<not> (suffix a n \<and> readable v)" by simp
    with ih p False show ?thesis by auto
  qed
qed


lemma renderAttrs_no_gt:
  "list_all wfAttr as \<Longrightarrow> CHR ''>'' \<notin> set (renderAttrs as)"
proof (induction as)
  case Nil
  then show ?case by simp
next
  case (Cons x as)
  obtain sep n v where x: "x = (sep, n, v)" by (cases x) auto
  with Cons.prems have s: "list_all isSpace sep" and n: "list_all nameChar n"
    and v: "list_all valueChar v" and r: "list_all wfAttr as"
    by simp_all
  from s have "CHR ''>'' \<notin> set sep" using isSpace_not_gt by (auto simp: list_all_iff)
  moreover from n have "CHR ''>'' \<notin> set n"
    by (auto simp: list_all_iff nameChar_def notGt_def)
  moreover from v have "CHR ''>'' \<notin> set v"
    by (auto simp: list_all_iff valueChar_def notGt_def)
  ultimately show ?case using Cons.IH [OF r] x by simp
qed

lemma findStat_statRecord:
  assumes "list_all wfAttr as" and "list_all isSpace trail" and "as \<noteq> [] \<or> trail \<noteq> []"
  shows "findStat (statRecord as trail) = Some (statRecord as trail)"
proof -
  have "renderAttrs as \<noteq> []" if "as \<noteq> []"
  proof -
    from that assms(1) obtain sep n v xs where "as = (sep, n, v) # xs" "sep \<noteq> []"
      by (cases as) auto
    then show ?thesis by simp
  qed
  with assms(3) have ne: "renderAttrs as @ trail \<noteq> []" by auto
  from assms(2) have "CHR ''>'' \<notin> set trail" using isSpace_not_gt by (auto simp: list_all_iff)
  with renderAttrs_no_gt [OF assms(1)] have ng: "CHR ''>'' \<notin> set (renderAttrs as @ trail)"
    by simp
  have "statAt (''<stat'' @ (renderAttrs as @ trail) @ ''>All Tests</stat>'' @ [])
          = Some (''<stat'' @ (renderAttrs as @ trail) @ ''>All Tests</stat>'')"
    by (rule statAt_hit [OF ne ng])
  then show ?thesis by (simp add: statRecord_def)
qed

lemma findStat_statRecord_empty: "findStat (statRecord [] []) = None"
  by (simp add: statRecord_def statAt_def notGt_def)

lemma countsOf_getStats:
  assumes "findStat resultsXml = Some line"
  shows "countsOf (getStats en resultsXml) =
           (case getArg line ''pass'' of Inl e \<Rightarrow> None | Inr p \<Rightarrow>
            (case getArg line ''fail'' of Inl e \<Rightarrow> None | Inr f \<Rightarrow>
             (case getArg line ''skip'' of Inl e \<Rightarrow> None | Inr k \<Rightarrow>
                Some (parseInt p, parseInt f, parseInt k))))"
  using assms by (simp add: getStats_def Let_def split: sum.splits)

lemma countsOf_statRecord:
  assumes "list_all wfAttr as" and "list_all isSpace trail"
  shows "countsOf (getStats en (statRecord as trail)) =
           (case getArg (statRecord as trail) ''pass'' of Inl e \<Rightarrow> None | Inr p \<Rightarrow>
            (case getArg (statRecord as trail) ''fail'' of Inl e \<Rightarrow> None | Inr f \<Rightarrow>
             (case getArg (statRecord as trail) ''skip'' of Inl e \<Rightarrow> None | Inr k \<Rightarrow>
                Some (parseInt p, parseInt f, parseInt k))))"
proof (cases "as \<noteq> [] \<or> trail \<noteq> []")
  case True
  show ?thesis
    by (rule countsOf_getStats [OF findStat_statRecord [OF assms True]])
next
  case False
  then have e: "as = []" "trail = []" by simp_all
  have "getArg (statRecord [] []) ''pass'' = Inl (''Error getting '' @ ''pass'' @ '' from XML'')"
    using getArg_statRecord [OF counted_members(1), of "[]" "[]"] by (simp add: pairsOf_def)
  moreover have "countsOf (getStats en (statRecord [] [])) = None"
    using findStat_statRecord_empty by (simp add: getStats_def)
  ultimately show ?thesis using e by simp
qed

subsection \<open>The report cannot be read\<close>

text \<open>
  C9. When the report file is absent or unreadable, the run never calls
  \<open>core.setFailed\<close>. With \<open>alertChannelOnNoOutput\<close> off it hands nothing to the webhook and
  its promise is fulfilled. With the switch on it hands exactly one payload to the webhook:
  the fallback message as plain text, with no attachment and so no statistics field; the
  promise is fulfilled when the webhook accepts the message.
\<close>

theorem C9_missing_report:
  assumes "readFile en (outputXmlPath cfg) = Inl err"
  shows "(\<not> alertChannelOnNoOutput cfg \<longrightarrow>
            run en cfg =
              ([CoreInfo ''Running Robot Framework Results To Slack'',
                CoreError (''Error reading results file: '' @ err)], Resolved))
       \<and> (alertChannelOnNoOutput cfg \<longrightarrow>
            fst (run en cfg) =
              [CoreInfo ''Running Robot Framework Results To Slack'',
               CoreError (''Error reading results file: '' @ err),
               WebhookSend (slackWebhookUrl cfg)
                 \<lparr>channel = slackChannel cfg, username = slackUsername cfg,
                  icon_emoji = slackIcon cfg, message = noOutputFoundMessage cfg,
                  attachments = []\<rparr>]
            \<and> (webhookSend en (slackWebhookUrl cfg)
                 \<lparr>channel = slackChannel cfg, username = slackUsername cfg,
                  icon_emoji = slackIcon cfg, message = noOutputFoundMessage cfg,
                  attachments = []\<rparr> = None \<longrightarrow> snd (run en cfg) = Resolved))
       \<and> (\<forall>m. CoreSetFailed m \<notin> set (fst (run en cfg)))"
  using assms
  by (auto simp: run_def getResults_def noOutput_def sendSlackMessage_def Let_def
           split: option.splits)

theorem C9_missing_report_witness:
  "readFile envMissing (outputXmlPath noOutputConfig)
     = Inl ''Error: ENOENT: no such file or directory''
   \<and> alertChannelOnNoOutput noOutputConfig
   \<and> run envMissing noOutputConfig =
       ([CoreInfo ''Running Robot Framework Results To Slack'',
         CoreError ''Error reading results file: Error: ENOENT: no such file or directory'',
         WebhookSend ''https://hooks.slack.test/T''
           \<lparr>channel = ''#ci'', username = ''robot'', icon_emoji = '':robot_face:'',
            message = ''No results found'', attachments = []\<rparr>], Resolved)"
proof -
  have h: "readFile envMissing (outputXmlPath noOutputConfig)
             = Inl ''Error: ENOENT: no such file or directory''"
    by (simp add: envMissing_def)
  have f: "alertChannelOnNoOutput noOutputConfig"
    by (simp add: noOutputConfig_def)
  have d: "webhookSend envMissing (slackWebhookUrl noOutputConfig) p = None" for p
    by (simp add: envMissing_def)
  from C9_missing_report [OF h] f d
  have "fst (run envMissing noOutputConfig) =
       [CoreInfo ''Running Robot Framework Results To Slack'',
         CoreError ''Error reading results file: Error: ENOENT: no such file or directory'',
         WebhookSend ''https://hooks.slack.test/T''
           \<lparr>channel = ''#ci'', username = ''robot'', icon_emoji = '':robot_face:'',
            message = ''No results found'', attachments = []\<rparr>]"
    and "snd (run envMissing noOutputConfig) = Resolved"
    by (simp_all add: noOutputConfig_def quietConfig_def)
  with h f show ?thesis by (simp add: prod_eq_iff)
qed

subsection \<open>No summary record\<close>

text \<open>
  C4, as the code has it. For every report text that is not empty and has no summary
  record, whatever else it contains, \<open>getStats\<close> logs the error and returns
  \<open>undefined\<close>, and the run ends with \<open>core.setFailed\<close> and hands nothing to the webhook.
\<close>

theorem C4_no_summary_fails:
  assumes "readFile en (outputXmlPath cfg) = Inr resultsXml"
    and "resultsXml \<noteq> []"
    and "\<not> hasSummary resultsXml"
  shows "getStats en resultsXml = ([CoreError ''Error getting stats from XML''], Inr None)
       \<and> run en cfg =
           ([CoreInfo ''Running Robot Framework Results To Slack'',
             CoreError ''Error getting stats from XML'',
             CoreSetFailed ''Error getting stats from XML''], Resolved)"
proof -
  from assms(3) have n: "findStat resultsXml = None"
    by (rule findStat_None_iff [THEN iffD2])
  then have g: "getStats en resultsXml = ([CoreError ''Error getting stats from XML''], Inr None)"
    by (simp add: getStats_def)
  from assms(2) obtain c cs where "resultsXml = c # cs" by (cases resultsXml) auto
  with assms(1) g show ?thesis
    by (simp add: run_def getResults_def tryStats_def)
qed

theorem C4_no_summary_fails_witness:
  "readFile (envWith ''<robot></robot>'') (outputXmlPath quietConfig) = Inr ''<robot></robot>''
   \<and> ''<robot></robot>'' \<noteq> []
   \<and> \<not> hasSummary ''<robot></robot>''
   \<and> run (envWith ''<robot></robot>'') quietConfig =
           ([CoreInfo ''Running Robot Framework Results To Slack'',
             CoreError ''Error getting stats from XML'',
             CoreSetFailed ''Error getting stats from XML''], Resolved)"
proof -
  have h1: "readFile (envWith ''<robot></robot>'') (outputXmlPath quietConfig)
              = Inr ''<robot></robot>''"
    by (simp add: envWith_def)
  have h2: "''<robot></robot>'' \<noteq> []" by simp
  have "findStat ''<robot></robot>'' = None" by (simp add: statAt_def)
  then have h3: "\<not> hasSummary ''<robot></robot>''" by (rule findStat_None_iff [THEN iffD1])
  from C4_no_summary_fails [OF h1 h2 h3] h1 h3 show ?thesis by simp
qed

text \<open>
  The claim as the spec states it fails for the empty report text: it has no summary
  record, but \<open>!resultsXml\<close> sends it down the branch of the missing report, and the run
  ends without \<open>core.setFailed\<close>.
\<close>

theorem C4_empty_report_counterexample:
  "\<not> hasSummary [] \<and>
   run (envWith []) quietConfig
     = ([CoreInfo ''Running Robot Framework Results To Slack''], Resolved)"
proof -
  have "findStat [] = None" by simp
  then have "\<not> hasSummary []" by (rule findStat_None_iff [THEN iffD1])
  moreover have "run (envWith []) quietConfig
     = ([CoreInfo ''Running Robot Framework Results To Slack''], Resolved)"
    by (simp add: run_def getResults_def envWith_def noOutput_def quietConfig_def)
  ultimately show ?thesis by simp
qed

subsection \<open>A missing attribute\<close>








subsection \<open>Counts that are not numbers\<close>

lemma jsAdd_NaN [simp]: "jsAdd x NaN = NaN" "jsAdd NaN y = NaN"
  by (cases x) simp_all

lemma jsDiv_NaN [simp]: "jsDiv x NaN = NaN" "jsDiv NaN y = NaN"
  by (cases x) simp_all

lemma jsMul_NaN [simp]: "jsMul x NaN = NaN" "jsMul NaN y = NaN"
  by (cases x) simp_all



lemma getStats_counts:
  assumes "findStat resultsXml = Some line"
    and "getArg line ''pass'' = Inr p" and "getArg line ''fail'' = Inr f"
    and "getArg line ''skip'' = Inr k"
  shows "getStats en resultsXml =
           ([], Inr (Some
              \<lparr>passed = parseInt p, failed = parseInt f, skipped = parseInt k,
               successRate =
                 parseInt (toFixed1 (jsMul (jsDiv (parseInt p)
                   (jsAdd (jsAdd (parseInt p) (parseInt f)) (parseInt k))) (Fin 100))),
               timestamp =
                 getTime (parse en (case findGenerated resultsXml of None \<Rightarrow> [] | Some g \<Rightarrow> g)
                            ''yyyyMMdd HH:mm:ss.SSS'')\<rparr>))"
  using assms by (simp add: getStats_def Let_def)





subsection \<open>The timestamp\<close>

lemma findGenerated_sublist:
  "findGenerated s = Some g \<Longrightarrow> sublist (''generated='' @ [CHR 0x22]) s"
proof (induction s)
  case Nil
  then show ?case by simp
next
  case (Cons c cs)
  show ?case
  proof (cases "prefix (''generated='' @ [CHR 0x22]) (c # cs)")
    case True
    then show ?thesis by (rule prefix_imp_sublist)
  next
    case False
    with Cons.prems have "findGenerated cs = Some g"
      by (simp split: if_splits option.splits)
    then have "sublist (''generated='' @ [CHR 0x22]) cs" by (rule Cons.IH)
    then show ?thesis by (simp add: sublist_Cons_right)
  qed
qed

lemma getTime_NaN: "getTime d = NaN \<longleftrightarrow> d = InvalidDate"
  by (cases d) simp_all

text \<open>
  C7, as the code has it. Take a report text whose summary record gives the three counts.
  Whatever the \<open>generated\<close> attribute is, \<open>getStats\<close> throws nothing and returns a
  \<open>Stats\<close>. Its timestamp is \<open>NaN\<close>, the time value of the invalid date, exactly when the
  date library rejects the text that the code hands to it: the first value that the
  regular expression finds after \<open>generated="\<close>, or the empty text when it finds none, as
  it does when \<open>generated="\<close> occurs nowhere in the text. There is no fallback to zero.
\<close>

theorem C7_invalid_timestamp:
  assumes "findStat resultsXml = Some line"
    and "getArg line ''pass'' = Inr p" and "getArg line ''fail'' = Inr f"
    and "getArg line ''skip'' = Inr k"
  shows "\<exists>st. getStats en resultsXml = ([], Inr (Some st))
           \<and> passed st = parseInt p \<and> failed st = parseInt f \<and> skipped st = parseInt k
           \<and> (timestamp st = NaN \<longleftrightarrow>
                 (findGenerated resultsXml = None
                    \<and> parse en [] ''yyyyMMdd HH:mm:ss.SSS'' = InvalidDate)
                 \<or> (\<exists>g. findGenerated resultsXml = Some g
                         \<and> parse en g ''yyyyMMdd HH:mm:ss.SSS'' = InvalidDate))
           \<and> (\<not> sublist (''generated='' @ [CHR 0x22]) resultsXml
                 \<longrightarrow> findGenerated resultsXml = None)"
proof -
  define st where "st =
    \<lparr>passed = parseInt p, failed = parseInt f, skipped = parseInt k,
     successRate =
       parseInt (toFixed1 (jsMul (jsDiv (parseInt p)
         (jsAdd (jsAdd (parseInt p) (parseInt f)) (parseInt k))) (Fin 100))),
     timestamp =
       getTime (parse en (case findGenerated resultsXml of None \<Rightarrow> [] | Some g \<Rightarrow> g)
                  ''yyyyMMdd HH:mm:ss.SSS'')\<rparr>"
  have g: "getStats en resultsXml = ([], Inr (Some st))"
    using getStats_counts [OF assms, of en] by (simp add: st_def)
  have c: "passed st = parseInt p \<and> failed st = parseInt f \<and> skipped st = parseInt k"
    by (simp add: st_def)
  have t: "timestamp st = NaN \<longleftrightarrow>
             (findGenerated resultsXml = None
                \<and> parse en [] ''yyyyMMdd HH:mm:ss.SSS'' = InvalidDate)
             \<or> (\<exists>g. findGenerated resultsXml = Some g
                     \<and> parse en g ''yyyyMMdd HH:mm:ss.SSS'' = InvalidDate)"
    by (cases "findGenerated resultsXml") (simp_all add: st_def getTime_NaN)
  have a: "\<not> sublist (''generated='' @ [CHR 0x22]) resultsXml
             \<longrightarrow> findGenerated resultsXml = None"
    using findGenerated_sublist by (cases "findGenerated resultsXml") auto
  from g c t a show ?thesis by blast
qed

theorem C7_invalid_timestamp_witness:
  "findStat (''<robot generated=\"yesterday\">'' @ statLine ''pass=\"1\" fail=\"0\" skip=\"0\"'')
     = Some (statLine ''pass=\"1\" fail=\"0\" skip=\"0\"'')
   \<and> getArg (statLine ''pass=\"1\" fail=\"0\" skip=\"0\"'') ''pass'' = Inr ''1''
   \<and> getArg (statLine ''pass=\"1\" fail=\"0\" skip=\"0\"'') ''fail'' = Inr ''0''
   \<and> getArg (statLine ''pass=\"1\" fail=\"0\" skip=\"0\"'') ''skip'' = Inr ''0''
   \<and> findGenerated (''<robot generated=\"yesterday\">'' @ statLine ''pass=\"1\" fail=\"0\" skip=\"0\"'')
       = Some ''yesterday''
   \<and> parse (envWith []) ''yesterday'' ''yyyyMMdd HH:mm:ss.SSS'' = InvalidDate
   \<and> map_option timestamp
         (statsOf (getStats (envWith [])
            (''<robot generated=\"yesterday\">'' @ statLine ''pass=\"1\" fail=\"0\" skip=\"0\"'')))
       = Some NaN"
proof -
  let ?L = "statLine ''pass=\"1\" fail=\"0\" skip=\"0\"''"
  let ?T = "''<robot generated=\"yesterday\">'' @ ?L"
  have h1: "findStat ?T = Some ?L" by code_simp
  have hp: "getArg ?L ''pass'' = Inr ''1''" by code_simp
  have hf: "getArg ?L ''fail'' = Inr ''0''" by code_simp
  have hk: "getArg ?L ''skip'' = Inr ''0''" by code_simp
  have g: "findGenerated ?T = Some ''yesterday''" by code_simp
  have d: "parse (envWith []) ''yesterday'' ''yyyyMMdd HH:mm:ss.SSS'' = InvalidDate"
    by (simp add: envWith_def parseFixed_def)
  from C7_invalid_timestamp [OF h1 hp hf hk, of "envWith []"] g d
  obtain st where "getStats (envWith []) ?T = ([], Inr (Some st))" "timestamp st = NaN"
    by blast
  then have "map_option timestamp (statsOf (getStats (envWith []) ?T)) = Some NaN"
    by simp
  with h1 hp hf hk g d show ?thesis by simp
qed

text \<open>
  The claim as the spec states it gives the timestamp zero whenever the \<open>generated\<close>
  attribute is absent. For a report without it the timestamp is \<open>NaN\<close>, which is not the
  number zero; and when another attribute name ends with \<open>generated\<close>, the timestamp is
  the time of that attribute's value.
\<close>

theorem C7_timestamp_not_zero_counterexample:
  "\<not> sublist (''generated='' @ [CHR 0x22]) (statLine ''pass=\"1\" fail=\"0\" skip=\"0\"'')
   \<and> map_option timestamp
         (statsOf (getStats (envWith []) (statLine ''pass=\"1\" fail=\"0\" skip=\"0\"''))) = Some NaN
   \<and> NaN \<noteq> Fin 0
   \<and> map_option timestamp
         (statsOf (getStats (envWith [])
            (''<robot regenerated=\"20240102 03:04:05.678\">''
               @ statLine ''pass=\"1\" fail=\"0\" skip=\"0\"'')))
       = Some (Fin 1704164645678)"
  by code_simp

subsection \<open>The colour\<close>



subsection \<open>Runs on concrete reports\<close>

text \<open>
  C1. The report has \<open>pass="10" fail="0" skip="0"\<close> and the four alert switches are off.
  The run does not skip: it hands the green payload with the four fields to the webhook.
  \<open>run\<close> calls \<open>sendStats\<close> for every \<open>Stats\<close> and reads none of the switches
  \<open>alertChannelOnFailure\<close>, \<open>alertChannelOnSkipped\<close>, \<open>alertChannelOnSuccess\<close>.
\<close>

theorem C1_success_is_sent_with_alerts_off:
  "alertChannelOnFailure quietConfig = False \<and> alertChannelOnSkipped quietConfig = False
   \<and> alertChannelOnSuccess quietConfig = False \<and> alertChannelOnNoOutput quietConfig = False
   \<and> run (envWith (report ''pass=\"10\" fail=\"0\" skip=\"0\"'')) quietConfig =
       ([CoreInfo ''Running Robot Framework Results To Slack'',
         WebhookSend ''https://hooks.slack.test/T''
           \<lparr>channel = ''#ci'', username = ''robot'', icon_emoji = '':robot_face:'',
            message = ''Robot Test Results #7'',
            attachments =
              [\<lparr>color = ''#2EB67D'', text' = ''Nightly'', mrkdwn_in = [''text'', ''fields''],
                ts = Fin 1672628645678,
                fields' =
                  [\<lparr>title = ''*Passed:*'', value' = ''10'', short = True\<rparr>,
                   \<lparr>title = ''*Failed:*'', value' = ''0'', short = True\<rparr>,
                   \<lparr>title = ''*Skipped:*'', value' = ''0'', short = True\<rparr>,
                   \<lparr>title = ''*Success Rate:*'', value' = ''100%'', short = True\<rparr>]\<rparr>]\<rparr>],
        Resolved)"
  by code_simp

text \<open>
  C2. For \<open>pass="2" fail="1" skip="0"\<close> the three counts are 2, 1 and 0, and the rate
  printed with one decimal is \<open>66.7\<close>; the success rate of the \<open>Stats\<close> is
  \<open>parseInt\<close> of that text, 66, and the field of the payload reads \<open>66%\<close>.
\<close>

theorem C2_rate_is_truncated:
  "statsOf (getStats (envWith []) (statLine ''pass=\"2\" fail=\"1\" skip=\"0\"''))
     = Some \<lparr>passed = Fin 2, failed = Fin 1, skipped = Fin 0, successRate = Fin 66,
              timestamp = NaN\<rparr>
   \<and> toFixed1 (jsMul (jsDiv (Fin 2) (jsAdd (jsAdd (Fin 2) (Fin 1)) (Fin 0))) (Fin 100)) = ''66.7''
   \<and> parseInt ''66.7'' = Fin 66
   \<and> value' (fields' (statsAttachment quietConfig
         \<lparr>passed = Fin 2, failed = Fin 1, skipped = Fin 0, successRate = Fin 66,
          timestamp = NaN\<rparr>) ! 3) = ''66%''"
  by code_simp

text \<open>
  C3. For \<open>pass="0" fail="0" skip="0"\<close> \<open>getStats\<close> throws nothing: it returns a
  \<open>Stats\<close> whose three counts are zero and whose success rate is \<open>NaN\<close>, and the run
  hands a payload with \<open>NaN%\<close> to the webhook.
\<close>

theorem C3_zero_total_returns_stats:
  "statsOf (getStats (envWith []) (statLine ''pass=\"0\" fail=\"0\" skip=\"0\"''))
     = Some \<lparr>passed = Fin 0, failed = Fin 0, skipped = Fin 0, successRate = NaN,
              timestamp = NaN\<rparr>
   \<and> run (envWith (statLine ''pass=\"0\" fail=\"0\" skip=\"0\"'')) quietConfig =
       ([CoreInfo ''Running Robot Framework Results To Slack'',
         WebhookSend ''https://hooks.slack.test/T''
           \<lparr>channel = ''#ci'', username = ''robot'', icon_emoji = '':robot_face:'',
            message = ''Robot Test Results #7'',
            attachments =
              [\<lparr>color = ''#E01E5A'', text' = ''Nightly'', mrkdwn_in = [''text'', ''fields''],
                ts = NaN,
                fields' =
                  [\<lparr>title = ''*Passed:*'', value' = ''0'', short = True\<rparr>,
                   \<lparr>title = ''*Failed:*'', value' = ''0'', short = True\<rparr>,
                   \<lparr>title = ''*Skipped:*'', value' = ''0'', short = True\<rparr>,
                   \<lparr>title = ''*Success Rate:*'', value' = ''NaN%'', short = True\<rparr>]\<rparr>]\<rparr>],
        Resolved)"
  by code_simp

subsection \<open>The order of the attributes\<close>

lemma getArg_same:
  assumes "a \<in> set counted"
    and "list_all wfAttr as" and "list_all wfAttr bs"
    and "list_all isSpace ta" and "list_all isSpace tb"
    and "distinct (map fst (pairsOf as))" and "distinct (map fst (pairsOf bs))"
    and "shadowFree (pairsOf as)" and "shadowFree (pairsOf bs)"
    and "map_of (pairsOf as) a = map_of (pairsOf bs) a"
  shows "getArg (statRecord as ta) a = getArg (statRecord bs tb) a"
proof -
  have "lookupArg a (pairsOf as) = lookupArg a (pairsOf bs)"
    using lookupArg_map_of [OF assms(1,8,6)] lookupArg_map_of [OF assms(1,9,7)] assms(10)
    by simp
  then show ?thesis
    using getArg_statRecord [OF assms(1,2,4)] getArg_statRecord [OF assms(1,3,5)] by simp
qed

text \<open>
  C8, as the code has it. Take two summary records written from attributes
  \<open>name="value"\<close>, with white space before each attribute and possibly before the \<open>>\<close>,
  with distinct names, with no double quote or \<open>>\<close> inside a name or a value, and in
  which no other attribute whose name ends with \<open>pass\<close>, \<open>fail\<close> or \<open>skip\<close> has a
  readable value. When the two have the same \<open>pass\<close>, \<open>fail\<close> and \<open>skip\<close> attributes,
  \<open>getArg\<close> gives the same result for pass, fail and skip on both and \<open>getStats\<close> gives
  the same counts, whatever the order of the attributes, the other attributes and the
  white space between them. This holds in particular when the two records have the same
  set of attributes.
\<close>

theorem C8_order_independent:
  assumes "list_all wfAttr as" and "list_all wfAttr bs"
    and "list_all isSpace ta" and "list_all isSpace tb"
    and "distinct (map fst (pairsOf as))" and "distinct (map fst (pairsOf bs))"
    and "shadowFree (pairsOf as)" and "shadowFree (pairsOf bs)"
  shows "((\<forall>a \<in> set counted. map_of (pairsOf as) a = map_of (pairsOf bs) a) \<longrightarrow>
            (\<forall>a \<in> set counted. getArg (statRecord as ta) a = getArg (statRecord bs tb) a)
            \<and> countsOf (getStats en (statRecord as ta)) = countsOf (getStats en (statRecord bs tb)))
       \<and> (set (pairsOf as) = set (pairsOf bs) \<longrightarrow>
            (\<forall>a \<in> set counted. getArg (statRecord as ta) a = getArg (statRecord bs tb) a)
            \<and> countsOf (getStats en (statRecord as ta)) = countsOf (getStats en (statRecord bs tb)))"
proof -
  have main: "(\<forall>a \<in> set counted. getArg (statRecord as ta) a = getArg (statRecord bs tb) a)
      \<and> countsOf (getStats en (statRecord as ta)) = countsOf (getStats en (statRecord bs tb))"
    if same: "\<forall>a \<in> set counted. map_of (pairsOf as) a = map_of (pairsOf bs) a"
  proof -
    have args: "getArg (statRecord as ta) a = getArg (statRecord bs tb) a"
      if "a \<in> set counted" for a
      using getArg_same [OF that assms(1,2,3,4,5,6,7,8)] same that by blast
    have "countsOf (getStats en (statRecord as ta)) = countsOf (getStats en (statRecord bs tb))"
      using countsOf_statRecord [OF assms(1,3), of en] countsOf_statRecord [OF assms(2,4), of en]
        args [OF counted_members(1)] args [OF counted_members(2)] args [OF counted_members(3)]
      by (simp only:)
    with args show ?thesis by blast
  qed
  have "\<forall>a \<in> set counted. map_of (pairsOf as) a = map_of (pairsOf bs) a"
    if "set (pairsOf as) = set (pairsOf bs)"
  proof -
    from assms(5,6) that have "map_of (pairsOf as) = map_of (pairsOf bs)"
      by (simp add: map_of_inject_set)
    then show ?thesis by simp
  qed
  with main show ?thesis by blast
qed

theorem C8_order_independent_witness:
  "list_all wfAttr
     [('' '', ''pass'', ''10''), ('' '', ''fail'', ''2''), ('' '', ''skip'', ''1''),
      ('' '', ''name'', ''All Tests'')]
   \<and> list_all wfAttr
     [(''  '', ''id'', ''s1''), ('' '', ''skip'', ''1''), ([CHR 0x0A, CHR '' ''], ''pass'', ''10''),
      ('' '', ''fail'', ''2'')]
   \<and> shadowFree (pairsOf
     [('' '', ''pass'', ''10''), ('' '', ''fail'', ''2''), ('' '', ''skip'', ''1''),
      ('' '', ''name'', ''All Tests'')])
   \<and> shadowFree (pairsOf
     [(''  '', ''id'', ''s1''), ('' '', ''skip'', ''1''), ([CHR 0x0A, CHR '' ''], ''pass'', ''10''),
      ('' '', ''fail'', ''2'')])
   \<and> countsOf (getStats (envWith [])
         (statRecord [('' '', ''pass'', ''10''), ('' '', ''fail'', ''2''), ('' '', ''skip'', ''1''),
                      ('' '', ''name'', ''All Tests'')] []))
       = countsOf (getStats (envWith [])
         (statRecord [(''  '', ''id'', ''s1''), ('' '', ''skip'', ''1''),
                      ([CHR 0x0A, CHR '' ''], ''pass'', ''10''), ('' '', ''fail'', ''2'')] '' ''))
   \<and> countsOf (getStats (envWith [])
         (statRecord [('' '', ''pass'', ''10''), ('' '', ''fail'', ''2''), ('' '', ''skip'', ''1''),
                      ('' '', ''name'', ''All Tests'')] []))
       = Some (Fin 10, Fin 2, Fin 1)"
proof -
  let ?as = "[('' '', ''pass'', ''10''), ('' '', ''fail'', ''2''), ('' '', ''skip'', ''1''),
              ('' '', ''name'', ''All Tests'')]"
  let ?bs = "[(''  '', ''id'', ''s1''), ('' '', ''skip'', ''1''),
              ([CHR 0x0A, CHR '' ''], ''pass'', ''10''), ('' '', ''fail'', ''2'')]"
  have h1: "list_all wfAttr ?as" by code_simp
  have h2: "list_all wfAttr ?bs" by code_simp
  have h3: "list_all isSpace []" by simp
  have h4: "list_all isSpace '' ''" by (simp add: isSpace_def)
  have h5: "distinct (map fst (pairsOf ?as))" by (simp add: pairsOf_def)
  have h6: "distinct (map fst (pairsOf ?bs))" by (simp add: pairsOf_def)
  have h7: "shadowFree (pairsOf ?as)" by code_simp
  have h8: "shadowFree (pairsOf ?bs)" by code_simp
  have same: "\<forall>a \<in> set counted. map_of (pairsOf ?as) a = map_of (pairsOf ?bs) a"
    by (simp add: counted_def pairsOf_def)
  have v: "countsOf (getStats (envWith []) (statRecord ?as [])) = Some (Fin 10, Fin 2, Fin 1)"
    by code_simp
  from C8_order_independent [OF h1 h2 h3 h4 h5 h6 h7 h8, of "envWith []"] same
  have "countsOf (getStats (envWith []) (statRecord ?as []))
          = countsOf (getStats (envWith []) (statRecord ?bs '' ''))"
    by blast
  with h1 h2 h7 h8 v show ?thesis by simp
qed

text \<open>
  The claim as the spec states it holds for every order, every extra attribute and any
  white space. Three pairs of records with the same \<open>pass\<close>, \<open>fail\<close> and \<open>skip\<close>
  attributes give different counts. An extra attribute whose name ends with \<open>pass\<close> is
  read as the pass count when it stands before \<open>pass\<close>, so the same attributes in two
  orders differ. An extra attribute with a \<open>>\<close> in its value ends the match of the
  record early, and nothing is extracted. White space around the \<open>=\<close> of an attribute
  hides it from \<open>getArg\<close>.
\<close>

theorem C8_suffix_name_counterexample:
  "set (pairsOf [('' '', ''xpass'', ''5''), ('' '', ''pass'', ''10''), ('' '', ''fail'', ''0''),
                 ('' '', ''skip'', ''0'')])
     = set (pairsOf [('' '', ''pass'', ''10''), ('' '', ''xpass'', ''5''), ('' '', ''fail'', ''0''),
                     ('' '', ''skip'', ''0'')])
   \<and> statRecord [('' '', ''xpass'', ''5''), ('' '', ''pass'', ''10''), ('' '', ''fail'', ''0''),
                  ('' '', ''skip'', ''0'')] []
       = ''<stat xpass=\"5\" pass=\"10\" fail=\"0\" skip=\"0\">All Tests</stat>''
   \<and> countsOf (getStats (envWith [])
         (statRecord [('' '', ''xpass'', ''5''), ('' '', ''pass'', ''10''), ('' '', ''fail'', ''0''),
                      ('' '', ''skip'', ''0'')] []))
       = Some (Fin 5, Fin 0, Fin 0)
   \<and> countsOf (getStats (envWith [])
         (statRecord [('' '', ''pass'', ''10''), ('' '', ''xpass'', ''5''), ('' '', ''fail'', ''0''),
                      ('' '', ''skip'', ''0'')] []))
       = Some (Fin 10, Fin 0, Fin 0)
   \<and> countsOf (getStats (envWith []) (statLine ''pass=\"10\" fail=\"0\" skip=\"0\"''))
       = Some (Fin 10, Fin 0, Fin 0)
   \<and> countsOf (getStats (envWith []) (statLine ''pass=\"10\" fail=\"0\" skip=\"0\" note=\"a>b\"''))
       = None
   \<and> countsOf (getStats (envWith []) (statLine ''pass = \"10\" fail=\"0\" skip=\"0\"''))
       = None"
proof -
  have "set (pairsOf [('' '', ''xpass'', ''5''), ('' '', ''pass'', ''10''), ('' '', ''fail'', ''0''),
                 ('' '', ''skip'', ''0'')])
     = set (pairsOf [('' '', ''pass'', ''10''), ('' '', ''xpass'', ''5''), ('' '', ''fail'', ''0''),
                     ('' '', ''skip'', ''0'')])"
    by (auto simp: pairsOf_def)
  moreover have "statRecord [('' '', ''xpass'', ''5''), ('' '', ''pass'', ''10''), ('' '', ''fail'', ''0''),
                  ('' '', ''skip'', ''0'')] []
       = ''<stat xpass=\"5\" pass=\"10\" fail=\"0\" skip=\"0\">All Tests</stat>''"
    by (simp add: statRecord_def)
  moreover have "countsOf (getStats (envWith [])
         (statRecord [('' '', ''xpass'', ''5''), ('' '', ''pass'', ''10''), ('' '', ''fail'', ''0''),
                      ('' '', ''skip'', ''0'')] []))
       = Some (Fin 5, Fin 0, Fin 0)"
    by code_simp
  moreover have "countsOf (getStats (envWith [])
         (statRecord [('' '', ''pass'', ''10''), ('' '', ''xpass'', ''5''), ('' '', ''fail'', ''0''),
                      ('' '', ''skip'', ''0'')] []))
       = Some (Fin 10, Fin 0, Fin 0)"
    by code_simp
  moreover have "countsOf (getStats (envWith []) (statLine ''pass=\"10\" fail=\"0\" skip=\"0\"''))
       = Some (Fin 10, Fin 0, Fin 0)"
    by code_simp
  moreover have "countsOf (getStats (envWith [])
         (statLine ''pass=\"10\" fail=\"0\" skip=\"0\" note=\"a>b\"'')) = None"
    by code_simp
  moreover have "countsOf (getStats (envWith []) (statLine ''pass = \"10\" fail=\"0\" skip=\"0\"''))
       = None"
    by code_simp
  ultimately show ?thesis by (simp only: simp_thms)
qed

end
